theory Spec2Isabelle
  imports Main "HOL-Library.Signed_Division"
begin

section \<open>sngrep: the window widget (src/tui/widgets/window.c)\<close>

text \<open>
  A shallow embedding of the window of sngrep's terminal interface: the focus chain and
  its navigation, the focus transfer, the dispatch of keys and mouse events, the
  placement computed on realization and the footer legend.

  The window's collaborators (the widget and container base classes, the keybinding
  table, ncurses and GLib) are not part of window.c. What they answer is a parameter
  (the record \<open>env\<close>); what the window asks of them is appended to a log of calls kept
  beside the window's private fields. A call to a collaborator does not write the
  window's private fields: the widget's \<open>focus_lost\<close>, \<open>focus_gain\<close>, \<open>key_pressed\<close>
  and \<open>clicked\<close> handlers are taken not to call back into the window while they run.

  A run of C code that reads through \<open>NULL\<close> or beyond an array has the value
  \<open>Inl\<close> of the fault; a loop that never ends has the value \<open>None\<close>.
\<close>

subsection \<open>Data model\<close>

text \<open>\<open>gint\<close> values; the one place where the 32-bit range matters writes the wrap-around out.\<close>

type_synonym gint = int

text \<open>A widget pointer is the identity of the widget.\<close>

type_synonym SngWidget = nat

text \<open>
  A pointer to a node of a \<open>GList\<close>: \<open>None\<close> is \<open>NULL\<close>, \<open>Some n\<close> the \<open>n\<close>-th node of
  the list it belongs to.
\<close>

type_synonym GList = "nat option"

type_synonym PANEL = nat
type_synonym WINDOW = nat

text \<open>What stops a C run: reading through \<open>NULL\<close>, reading beyond an array.\<close>

datatype fault = NullDereference | OutOfBounds

text \<open>
  Modelled from the spec: the actions of the keybinding table (keybinding.h is not
  under src/), "at least NEXT_FIELD, PREV_FIELD, UNKNOWN".
\<close>

datatype KeybindingAction =
  ACTION_UNKNOWN | ACTION_NEXT_FIELD | ACTION_PREV_FIELD | ACTION_OTHER nat

text \<open>
  Modelled from the spec: the verdict of a key or click handler (handled / not handled /
  propagate); the constants are declared outside window.c.
\<close>

datatype KeyHandlerRet = KEY_HANDLED | KEY_NOT_HANDLED | KEY_PROPAGATED

text \<open>The ncurses mouse event.\<close>

record MEVENT =
  mevent_id :: int
  mevent_x :: gint
  mevent_y :: gint
  mevent_z :: gint
  mevent_bstate :: nat

text \<open>ncurses attributes and the colour pairs of the theme that window.c names.\<close>

datatype color_pair = CP_DEF_ON_BLUE | CP_DEF_ON_CYAN | CP_WHITE_ON_CYAN | CP_BLACK_ON_CYAN

datatype attr = A_REVERSE | A_BOLD | COLOR_PAIR color_pair

text \<open>The two callbacks that window.c connects to the signals of a focusable widget.\<close>

datatype callback = Window_focus_default_widget | Window_set_focused_widget

text \<open>
  A widget subtree: a plain widget, or a container (\<open>TUI_IS_CONTAINER\<close>) with its
  children in order.
\<close>

datatype widget_tree =
  Plain SngWidget
| Container SngWidget "widget_tree list"

text \<open>The calls the window makes to its collaborators.\<close>

datatype ext_call =
  FocusLost SngWidget                     \<comment> \<open>\<open>sng_widget_focus_lost(widget)\<close>\<close>
| FocusGain SngWidget                     \<comment> \<open>\<open>sng_widget_focus_gain(widget)\<close>\<close>
| KeyPressed SngWidget gint               \<comment> \<open>\<open>sng_widget_key_pressed(widget, key)\<close>\<close>
| Clicked SngWidget MEVENT                \<comment> \<open>\<open>sng_widget_clicked(widget, mevent)\<close>\<close>
| SignalConnect SngWidget string callback \<comment> \<open>\<open>g_signal_connect_swapped(widget, signal, callback, window)\<close>\<close>
| ContainerAdd SngWidget                  \<comment> \<open>the parent class's \<open>add(container, widget)\<close>\<close>
| SetPosition gint gint                   \<comment> \<open>\<open>sng_widget_set_position(widget, xpos, ypos)\<close>\<close>
| NewWin gint gint gint gint              \<comment> \<open>\<open>newwin(nlines, ncols, begin_y, begin_x)\<close>\<close>
| SetNcursesWindow "WINDOW option"        \<comment> \<open>\<open>sng_widget_set_ncurses_window(widget, win)\<close>\<close>
| WTimeout gint                           \<comment> \<open>\<open>wtimeout(win, delay)\<close>\<close>
| Keypad bool                             \<comment> \<open>\<open>keypad(win, bf)\<close>\<close>
| NewPanel "WINDOW option"                \<comment> \<open>\<open>new_panel(win)\<close>\<close>
| ParentRealize                           \<comment> \<open>the parent class's \<open>realize(widget)\<close>\<close>
| WAttrOn "attr set"                      \<comment> \<open>\<open>wattron(win, attrs)\<close>\<close>
| WAttrOff "attr set"                     \<comment> \<open>\<open>wattroff(win, attrs)\<close>\<close>
| MvWPrintw gint gint string              \<comment> \<open>\<open>mvwprintw(win, y, x, fmt, ...)\<close>, with the text printed\<close>

text \<open>
  \<open>WindowPrivate\<close>, and the log of the calls made so far. Each entry of the log keeps,
  beside the call, the widget that \<open>window_focused_widget\<close> answers while the call runs.
\<close>

record Window =
  panel :: "PANEL option"
  wtype :: nat
  changed :: bool
  focus_chain :: "SngWidget list"
  focus_default :: SngWidget
  focus :: SngWidget
  calls :: "(ext_call \<times> SngWidget) list"

text \<open>What the collaborators answer.\<close>

record env =
  sng_widget_is_visible :: "SngWidget \<Rightarrow> bool"
  sng_widget_can_focus :: "SngWidget \<Rightarrow> bool"
  sng_widget_key_pressed :: "SngWidget \<Rightarrow> gint \<Rightarrow> KeyHandlerRet"
  sng_widget_clicked :: "SngWidget \<Rightarrow> MEVENT \<Rightarrow> KeyHandlerRet"
  key_find_action :: "gint \<Rightarrow> KeybindingAction \<Rightarrow> KeybindingAction"
  container_find_by_position :: "gint \<Rightarrow> gint \<Rightarrow> SngWidget option"
  sng_widget_is_realized :: bool
  sng_widget_get_height :: gint
  sng_widget_get_width :: gint
  getmaxy :: gint
  getmaxx :: gint
  newwin :: "gint \<Rightarrow> gint \<Rightarrow> gint \<Rightarrow> gint \<Rightarrow> WINDOW option"
  new_panel :: "WINDOW option \<Rightarrow> PANEL option"
  has_colors :: bool

definition emit :: "ext_call \<Rightarrow> Window \<Rightarrow> Window" where
  "emit c s = s\<lparr>calls := calls s @ [(c, focus s)]\<rparr>"

subsection \<open>GLib's doubly linked list\<close>

fun g_list_find :: "SngWidget list \<Rightarrow> SngWidget \<Rightarrow> GList" where
  "g_list_find [] d = None"
| "g_list_find (x # xs) d = (if x = d then Some 0 else map_option Suc (g_list_find xs d))"

definition g_list_first :: "SngWidget list \<Rightarrow> GList" where
  "g_list_first chain = (if chain = [] then None else Some 0)"

definition g_list_last :: "SngWidget list \<Rightarrow> GList" where
  "g_list_last chain = (if chain = [] then None else Some (length chain - 1))"

definition g_list_append :: "SngWidget list \<Rightarrow> SngWidget \<Rightarrow> SngWidget list" where
  "g_list_append chain d = chain @ [d]"

text \<open>\<open>node->next\<close>, \<open>node->prev\<close> and \<open>node->data\<close> of the \<open>n\<close>-th node.\<close>

definition node_next :: "SngWidget list \<Rightarrow> nat \<Rightarrow> GList" where
  "node_next chain n = (if Suc n < length chain then Some (Suc n) else None)"

definition node_prev :: "SngWidget list \<Rightarrow> nat \<Rightarrow> GList" where
  "node_prev chain n = (if n = 0 then None else Some (n - 1))"

definition node_data :: "SngWidget list \<Rightarrow> nat \<Rightarrow> SngWidget" where
  "node_data chain n = chain ! n"

subsection \<open>Focus transfer\<close>

definition window_focused_widget :: "Window \<Rightarrow> SngWidget" where
  "window_focused_widget s = focus s"

definition window_set_focused_widget :: "SngWidget \<Rightarrow> Window \<Rightarrow> Window" where
  "window_set_focused_widget widget s =
     (if focus s = widget then s
      else
        (let s1 = emit (FocusLost (focus s)) s;
             s2 = s1\<lparr>focus := widget\<rparr>
         in emit (FocusGain widget) s2))"

subsection \<open>Focus navigation\<close>

text \<open>
  The \<open>do ... while\<close> loops of \<open>window_focus_next\<close> and \<open>window_focus_prev\<close>. The result
  is \<open>None\<close> when the loop never ends, a fault when \<open>current\<close> is \<open>NULL\<close> where the
  loop reads \<open>current->next\<close>, \<open>current->prev\<close> or \<open>current->data\<close>, and the node the
  loop stops at otherwise.
\<close>

partial_function (option) window_focus_next_loop ::
  "env \<Rightarrow> SngWidget list \<Rightarrow> GList \<Rightarrow> (fault + nat) option" where
  "window_focus_next_loop E chain current =
     (case current of
        None \<Rightarrow> Some (Inl NullDereference)
      | Some n \<Rightarrow>
          (let current' =
                 (if node_next chain n = None then g_list_first chain
                  else (case node_next chain n of
                          Some m \<Rightarrow> Some m
                        | None \<Rightarrow> g_list_first chain))
           in case current' of
                None \<Rightarrow> Some (Inl NullDereference)
              | Some m \<Rightarrow>
                  if \<not> sng_widget_is_visible E (node_data chain m)
                  then window_focus_next_loop E chain current'
                  else Some (Inr m)))"

partial_function (option) window_focus_prev_loop ::
  "env \<Rightarrow> SngWidget list \<Rightarrow> GList \<Rightarrow> (fault + nat) option" where
  "window_focus_prev_loop E chain current =
     (case current of
        None \<Rightarrow> Some (Inl NullDereference)
      | Some n \<Rightarrow>
          (let current' =
                 (if node_prev chain n = None then g_list_last chain
                  else (case node_prev chain n of
                          Some m \<Rightarrow> Some m
                        | None \<Rightarrow> g_list_last chain))
           in case current' of
                None \<Rightarrow> Some (Inl NullDereference)
              | Some m \<Rightarrow>
                  if \<not> sng_widget_is_visible E (node_data chain m)
                  then window_focus_prev_loop E chain current'
                  else Some (Inr m)))"

definition window_focus_next :: "env \<Rightarrow> Window \<Rightarrow> (fault + Window) option" where
  "window_focus_next E s =
     (case window_focus_next_loop E (focus_chain s) (g_list_find (focus_chain s) (focus s)) of
        None \<Rightarrow> None
      | Some (Inl e) \<Rightarrow> Some (Inl e)
      | Some (Inr m) \<Rightarrow>
          Some (Inr (window_set_focused_widget (node_data (focus_chain s) m) s)))"

definition window_focus_prev :: "env \<Rightarrow> Window \<Rightarrow> (fault + Window) option" where
  "window_focus_prev E s =
     (case window_focus_prev_loop E (focus_chain s) (g_list_find (focus_chain s) (focus s)) of
        None \<Rightarrow> None
      | Some (Inl e) \<Rightarrow> Some (Inl e)
      | Some (Inr m) \<Rightarrow>
          Some (Inr (window_set_focused_widget (node_data (focus_chain s) m) s)))"

text \<open>\<open>window_focus_next\<close> called \<open>k\<close> times in a row; a fault or a loop that never ends stops the run.\<close>

fun focus_next_times :: "env \<Rightarrow> nat \<Rightarrow> Window \<Rightarrow> (fault + Window) option" where
  "focus_next_times E 0 s = Some (Inr s)"
| "focus_next_times E (Suc k) s =
     (case window_focus_next E s of
        None \<Rightarrow> None
      | Some (Inl e) \<Rightarrow> Some (Inl e)
      | Some (Inr s') \<Rightarrow> focus_next_times E k s')"

fun focus_prev_times :: "env \<Rightarrow> nat \<Rightarrow> Window \<Rightarrow> (fault + Window) option" where
  "focus_prev_times E 0 s = Some (Inr s)"
| "focus_prev_times E (Suc k) s =
     (case window_focus_prev E s of
        None \<Rightarrow> None
      | Some (Inl e) \<Rightarrow> Some (Inl e)
      | Some (Inr s') \<Rightarrow> focus_prev_times E k s')"

subsection \<open>Building the focus chain\<close>

fun widget_of :: "widget_tree \<Rightarrow> SngWidget" where
  "widget_of (Plain w) = w"
| "widget_of (Container w children) = w"

text \<open>
  \<open>window_update_focus_chain\<close>: the widget itself when it can take the focus, then, for
  a container, each child's subtree in order.
\<close>

fun window_update_focus_chain :: "env \<Rightarrow> widget_tree \<Rightarrow> Window \<Rightarrow> Window" where
  "window_update_focus_chain E widget s =
     (let s' =
            (if sng_widget_can_focus E (widget_of widget) then
               (let s1 = s\<lparr>focus_chain := g_list_append (focus_chain s) (widget_of widget)\<rparr>;
                    s2 = emit (SignalConnect (widget_of widget) ''lose-focus''
                                 Window_focus_default_widget) s1
                in emit (SignalConnect (widget_of widget) ''grab-focus''
                           Window_set_focused_widget) s2)
             else s)
      in case widget of
           Container w children \<Rightarrow> fold (window_update_focus_chain E) children s'
         | Plain w \<Rightarrow> s')"

declare window_update_focus_chain.simps [simp del]

definition window_add_widget :: "env \<Rightarrow> widget_tree \<Rightarrow> Window \<Rightarrow> Window" where
  "window_add_widget E widget s =
     emit (ContainerAdd (widget_of widget)) (window_update_focus_chain E widget s)"

text \<open>The nodes of a subtree in pre-order: the widget first, then each child's subtree.\<close>

fun preorder :: "widget_tree \<Rightarrow> SngWidget list" where
  "preorder (Plain w) = [w]"
| "preorder (Container w children) = w # concat (map preorder children)"

subsection \<open>Input dispatch\<close>

definition window_handle_mouse :: "env \<Rightarrow> MEVENT \<Rightarrow> Window \<Rightarrow> Window \<times> KeyHandlerRet" where
  "window_handle_mouse E mevent s0 =
     (let s = s0\<lparr>changed := True\<rparr>;
          clicked_widget = container_find_by_position E (mevent_x mevent) (mevent_y mevent)
      in case clicked_widget of
           Some w \<Rightarrow>
             (let s1 = window_set_focused_widget w s
              in (emit (Clicked w mevent) s1, sng_widget_clicked E w mevent))
         | None \<Rightarrow> (s, KEY_HANDLED))"

definition window_handle_key ::
  "env \<Rightarrow> gint \<Rightarrow> Window \<Rightarrow> (fault + Window \<times> KeyHandlerRet) option" where
  "window_handle_key E key s0 =
     (let s = s0\<lparr>changed := True\<rparr>;
          action = key_find_action E key ACTION_UNKNOWN
      in if action = ACTION_NEXT_FIELD then
           (case window_focus_next E s of
              None \<Rightarrow> None
            | Some (Inl e) \<Rightarrow> Some (Inl e)
            | Some (Inr s') \<Rightarrow> Some (Inr (s', KEY_HANDLED)))
         else if action = ACTION_PREV_FIELD then
           (case window_focus_prev E s of
              None \<Rightarrow> None
            | Some (Inl e) \<Rightarrow> Some (Inl e)
            | Some (Inr s') \<Rightarrow> Some (Inr (s', KEY_HANDLED)))
         else
           Some (Inr (emit (KeyPressed (focus s) key) s,
                      sng_widget_key_pressed E (focus s) key)))"

subsection \<open>Realization\<close>

text \<open>
  Arithmetic on \<open>gint\<close>: a result outside the 32-bit range wraps around (two's
  complement). Division truncates towards zero. \<open>ABS\<close> is GLib's macro
  \<open>(((a) < 0) ? -(a) : (a))\<close>.
\<close>

definition gint_range :: "int \<Rightarrow> bool" where
  "gint_range k = (- (2 ^ 31) \<le> k \<and> k < 2 ^ 31)"

definition gint_wrap :: "int \<Rightarrow> gint" where
  "gint_wrap k = (k + 2 ^ 31) mod 2 ^ 32 - 2 ^ 31"

definition gint_sub :: "gint \<Rightarrow> gint \<Rightarrow> gint" where
  "gint_sub a b = gint_wrap (a - b)"

definition gint_div :: "gint \<Rightarrow> gint \<Rightarrow> gint" where
  "gint_div a b = gint_wrap (a sdiv b)"

definition ABS :: "gint \<Rightarrow> gint" where
  "ABS a = (if a < 0 then gint_wrap (- a) else a)"

definition window_realize :: "env \<Rightarrow> Window \<Rightarrow> Window" where
  "window_realize E s =
     (let s' =
            (if \<not> sng_widget_is_realized E then
               (let maxy = getmaxy E;
                    maxx = getmaxx E;
                    height = sng_widget_get_height E;
                    width = sng_widget_get_width E;
                    xpos = (if height \<noteq> maxy then ABS (gint_div (gint_sub maxy height) 2) else 0);
                    ypos = (if width \<noteq> maxx then ABS (gint_div (gint_sub maxx width) 2) else 0);
                    s1 = emit (SetPosition xpos ypos) s;
                    win = newwin E height width xpos ypos;
                    s2 = emit (NewWin height width xpos ypos) s1;
                    s3 = emit (SetNcursesWindow win) s2;
                    s4 = emit (WTimeout 0) s3;
                    s5 = emit (Keypad True) s4;
                    s6 = emit (NewPanel win) s5
                in s6\<lparr>panel := new_panel E win\<rparr>)
             else s)
      in emit ParentRealize s')"

text \<open>
  The offset in the spec's words: 0 when the two dimensions are equal, otherwise the
  absolute value of the truncated quotient of their difference by 2.
\<close>

definition centering_offset :: "gint \<Rightarrow> gint \<Rightarrow> gint" where
  "centering_offset screen_dim window_dim =
     (if screen_dim = window_dim then 0 else \<bar>gint_sub screen_dim window_dim sdiv 2\<bar>)"

subsection \<open>The footer legend\<close>

text \<open>\<open>printf\<close>'s \<open>%*s\<close> (right-justified in the width) and \<open>%-*s\<close> (left-justified).\<close>

definition printf_right :: "nat \<Rightarrow> string \<Rightarrow> string" where
  "printf_right width str = replicate (width - length str) CHR '' '' @ str"

definition printf_left :: "nat \<Rightarrow> string \<Rightarrow> string" where
  "printf_left width str = str @ replicate (width - length str) CHR '' ''"

definition window_clear_line :: "env \<Rightarrow> gint \<Rightarrow> Window \<Rightarrow> Window" where
  "window_clear_line E line s =
     emit (MvWPrintw line 0 (printf_right (nat \<bar>sng_widget_get_width E\<bar>) [])) s"

text \<open>\<open>keybindings[i]\<close>, when \<open>i\<close> is inside the array.\<close>

definition array_read :: "string list \<Rightarrow> gint \<Rightarrow> string option" where
  "array_read keybindings i =
     (if 0 \<le> i \<and> nat i < length keybindings then Some (keybindings ! nat i) else None)"

function window_draw_bindings_loop ::
  "env \<Rightarrow> string list \<Rightarrow> gint \<Rightarrow> gint \<Rightarrow> gint \<Rightarrow> Window \<Rightarrow> fault + Window" where
  "window_draw_bindings_loop E keybindings count key xpos s =
     (if key < count then
        (case array_read keybindings key of
           None \<Rightarrow> Inl OutOfBounds
         | Some label \<Rightarrow>
             (case array_read keybindings (key + 1) of
                None \<Rightarrow> Inl OutOfBounds
              | Some descr \<Rightarrow>
                  (let line = sng_widget_get_height E - 1;
                       s1 = emit (WAttrOn {A_BOLD, COLOR_PAIR CP_WHITE_ON_CYAN}) s;
                       s2 = emit (MvWPrintw line xpos (printf_left (length label + 1) label)) s1;
                       xpos1 = xpos + int (length label) + 1;
                       s3 = emit (WAttrOff {A_BOLD, COLOR_PAIR CP_WHITE_ON_CYAN}) s2;
                       s4 = emit (WAttrOn {COLOR_PAIR CP_BLACK_ON_CYAN}) s3;
                       s5 = emit (MvWPrintw line xpos1 (printf_left (length descr + 1) descr)) s4;
                       s6 = emit (WAttrOff {COLOR_PAIR CP_BLACK_ON_CYAN}) s5;
                       xpos2 = xpos1 + int (length descr) + 3
                   in window_draw_bindings_loop E keybindings count (key + 2) xpos2 s6)))
      else Inr s)"
  by pat_completeness auto
termination
  by (relation "measure (\<lambda>(E, keybindings, count, key, xpos, s). nat (count - key))") auto

declare window_draw_bindings_loop.simps [simp del]

definition window_draw_bindings ::
  "env \<Rightarrow> string list \<Rightarrow> gint \<Rightarrow> Window \<Rightarrow> fault + Window" where
  "window_draw_bindings E keybindings count s =
     (let s1 = (if \<not> has_colors E then emit (WAttrOn {A_REVERSE}) s else s);
          s2 = emit (WAttrOn {COLOR_PAIR CP_DEF_ON_CYAN}) s1;
          s3 = window_clear_line E (sng_widget_get_height E - 1) s2
      in case window_draw_bindings_loop E keybindings count 0 0 s3 of
           Inl e \<Rightarrow> Inl e
         | Inr s4 \<Rightarrow> Inr (emit (WAttrOff {A_REVERSE, A_BOLD}) s4))"

text \<open>The array a sequence of (key-label, description) pairs is passed as.\<close>

fun flat_pairs :: "(string \<times> string) list \<Rightarrow> string list" where
  "flat_pairs [] = []"
| "flat_pairs ((label, descr) # ps) = label # descr # flat_pairs ps"

text \<open>The cells printed, each with the column it starts at, in the order of the calls.\<close>

fun printed_cells :: "(ext_call \<times> SngWidget) list \<Rightarrow> (gint \<times> string) list" where
  "printed_cells [] = []"
| "printed_cells ((MvWPrintw line col txt, f) # cs) = (col, txt) # printed_cells cs"
| "printed_cells (c # cs) = printed_cells cs"

text \<open>A row of cells in which every cell starts where the cell before it ends.\<close>

fun cells_contiguous :: "(gint \<times> string) list \<Rightarrow> bool" where
  "cells_contiguous ((c1, t1) # (c2, t2) # cells) =
     (c2 = c1 + int (length t1) \<and> cells_contiguous ((c2, t2) # cells))"
| "cells_contiguous cells = True"

text \<open>
  The legend as the loop lays it out: a key label padded by one column, its description
  right after it, padded by one column, and two more columns before the next key label.
\<close>

fun legend_layout :: "gint \<Rightarrow> (string \<times> string) list \<Rightarrow> (gint \<times> string) list" where
  "legend_layout col [] = []"
| "legend_layout col ((label, descr) # ps) =
     (col, label @ '' '')
     # (col + int (length label) + 1, descr @ '' '')
     # legend_layout (col + int (length label) + 1 + int (length descr) + 1 + 2) ps"

subsection \<open>Frame of the focus operations\<close>

text \<open>Every field of \<open>WindowPrivate\<close> other than the focused widget is the same in both states.\<close>

definition same_but_focus :: "Window \<Rightarrow> Window \<Rightarrow> bool" where
  "same_but_focus s s' =
     (panel s' = panel s \<and> wtype s' = wtype s \<and> changed s' = changed s \<and>
      focus_chain s' = focus_chain s \<and> focus_default s' = focus_default s)"

subsection \<open>Sample inputs\<close>

text \<open>
  Collaborators that answer the visibility, the focusability, the action of a key and the
  widget under a position as given, and a window with a given chain and focused widget.
\<close>

abbreviation sample_env ::
  "(SngWidget \<Rightarrow> bool) \<Rightarrow> (SngWidget \<Rightarrow> bool) \<Rightarrow> (gint \<Rightarrow> KeybindingAction) \<Rightarrow>
   (gint \<Rightarrow> gint \<Rightarrow> SngWidget option) \<Rightarrow> env" where
  "sample_env vis can act hit \<equiv>
     \<lparr>sng_widget_is_visible = vis,
      sng_widget_can_focus = can,
      sng_widget_key_pressed = (\<lambda>w k. KEY_NOT_HANDLED),
      sng_widget_clicked = (\<lambda>w m. KEY_PROPAGATED),
      key_find_action = (\<lambda>k start. act k),
      container_find_by_position = hit,
      sng_widget_is_realized = False,
      sng_widget_get_height = 20,
      sng_widget_get_width = 60,
      getmaxy = 24,
      getmaxx = 80,
      newwin = (\<lambda>h w y x. Some 1),
      new_panel = (\<lambda>win. Some 1),
      has_colors = True\<rparr>"

abbreviation sample_window :: "SngWidget list \<Rightarrow> SngWidget \<Rightarrow> Window" where
  "sample_window chain f \<equiv>
     \<lparr>panel = None, wtype = 0, changed = False, focus_chain = chain,
      focus_default = 0, focus = f, calls = []\<rparr>"

subsection \<open>Focus transfer: what an unchanged and a changed focus do\<close>

lemma window_set_focused_widget_same:
  "focus s = w \<Longrightarrow> window_set_focused_widget w s = s"
  by (simp add: window_set_focused_widget_def)

lemma window_set_focused_widget_other:
  "focus s \<noteq> w \<Longrightarrow>
   window_set_focused_widget w s =
     s\<lparr>focus := w, calls := calls s @ [(FocusLost (focus s), focus s), (FocusGain w, w)]\<rparr>"
  by (simp add: window_set_focused_widget_def emit_def Let_def)

lemma focus_window_set_focused_widget [simp]:
  "focus (window_set_focused_widget w s) = w"
  by (simp add: window_set_focused_widget_def emit_def Let_def)

lemma focus_chain_window_set_focused_widget [simp]:
  "focus_chain (window_set_focused_widget w s) = focus_chain s"
  by (simp add: window_set_focused_widget_def emit_def Let_def)

subsection \<open>Searching the chain and running the navigation loops\<close>

lemma g_list_find_None: "g_list_find xs d = None \<longleftrightarrow> d \<notin> set xs"
  by (induction xs) auto

lemma g_list_find_Some:
  "g_list_find xs d = Some i \<Longrightarrow> i < length xs \<and> xs ! i = d"
  by (induction xs arbitrary: i) (auto split: if_splits)

lemma g_list_find_member:
  "d \<in> set xs \<Longrightarrow> \<exists>i < length xs. g_list_find xs d = Some i \<and> xs ! i = d"
  using g_list_find_None [of xs d] g_list_find_Some [of xs d]
  by (cases "g_list_find xs d") auto

lemma g_list_find_distinct:
  "distinct xs \<Longrightarrow> i < length xs \<Longrightarrow> g_list_find xs (xs ! i) = Some i"
proof -
  assume d: "distinct xs" and i: "i < length xs"
  then obtain j where j: "j < length xs" "g_list_find xs (xs ! i) = Some j" "xs ! j = xs ! i"
    using g_list_find_member [of "xs ! i" xs] by auto
  with d i have "j = i" by (simp add: nth_eq_iff_index_eq)
  with j show ?thesis by simp
qed

lemma next_loop_NULL:
  "window_focus_next_loop E chain None = Some (Inl NullDereference)"
  by (simp add: window_focus_next_loop.simps)

lemma prev_loop_NULL:
  "window_focus_prev_loop E chain None = Some (Inl NullDereference)"
  by (simp add: window_focus_prev_loop.simps)

lemma next_loop_step:
  assumes "i < length chain"
  shows "window_focus_next_loop E chain (Some i) =
     (if \<not> sng_widget_is_visible E (chain ! (Suc i mod length chain))
      then window_focus_next_loop E chain (Some (Suc i mod length chain))
      else Some (Inr (Suc i mod length chain)))"
proof (cases "Suc i < length chain")
  case True
  then show ?thesis
    by (subst window_focus_next_loop.simps) (simp add: node_next_def node_data_def)
next
  case False
  with assms have "Suc i = length chain" by simp
  then have "Suc i mod length chain = 0" "chain \<noteq> []" by auto
  with False show ?thesis
    by (subst window_focus_next_loop.simps)
      (simp add: node_next_def node_data_def g_list_first_def)
qed

lemma prev_index: "i < n \<Longrightarrow> (if i = 0 then n - 1 else i - 1) = (i + (n - 1)) mod n" for i n :: nat
  by (cases "i = 0") (auto simp: mod_if)

lemma prev_loop_step:
  assumes "i < length chain"
  shows "window_focus_prev_loop E chain (Some i) =
     (if \<not> sng_widget_is_visible E (chain ! ((i + (length chain - 1)) mod length chain))
      then window_focus_prev_loop E chain (Some ((i + (length chain - 1)) mod length chain))
      else Some (Inr ((i + (length chain - 1)) mod length chain)))"
proof -
  from assms have ne: "chain \<noteq> []" by auto
  have idx: "(if i = 0 then length chain - 1 else i - 1) = (i + (length chain - 1)) mod length chain"
    using assms by (rule prev_index)
  show ?thesis
  proof (cases "i = 0")
    case True
    with ne idx show ?thesis
      by (subst window_focus_prev_loop.simps)
        (simp add: node_prev_def node_data_def g_list_last_def)
  next
    case False
    with idx have "i - 1 = (i + (length chain - 1)) mod length chain" by simp
    with False show ?thesis
      by (subst window_focus_prev_loop.simps)
        (simp add: node_prev_def node_data_def)
  qed
qed

lemma next_loop_finds:
  "i < length chain \<Longrightarrow>
   sng_widget_is_visible E (chain ! ((i + Suc d) mod length chain)) \<Longrightarrow>
   \<exists>m < length chain. window_focus_next_loop E chain (Some i) = Some (Inr m) \<and>
      sng_widget_is_visible E (chain ! m)"
proof (induction d arbitrary: i)
  case 0
  then have "0 < length chain" by auto
  with 0 show ?case by (simp add: next_loop_step)
next
  case (Suc d)
  let ?j = "Suc i mod length chain"
  from Suc.prems have "0 < length chain" by auto
  then have j: "?j < length chain" by simp
  have "(?j + Suc d) mod length chain = (i + Suc (Suc d)) mod length chain"
    by (metis add_Suc mod_add_left_eq add_Suc_right)
  with Suc.prems have "sng_widget_is_visible E (chain ! ((?j + Suc d) mod length chain))" by simp
  from Suc.IH [OF j this] j Suc.prems(1) show ?case
    by (auto simp: next_loop_step [of i])
qed

lemma prev_loop_finds:
  "k < length chain \<Longrightarrow> i = (k + Suc d) mod length chain \<Longrightarrow>
   sng_widget_is_visible E (chain ! k) \<Longrightarrow>
   \<exists>m < length chain. window_focus_prev_loop E chain (Some i) = Some (Inr m) \<and>
      sng_widget_is_visible E (chain ! m)"
proof (induction d arbitrary: i)
  case 0
  let ?n = "length chain"
  from 0 have pos: "0 < ?n" by auto
  then have i: "i < ?n" using 0 by simp
  have "(i + (?n - 1)) mod ?n = (k + Suc 0 + (?n - 1)) mod ?n"
    unfolding 0(2) by (rule mod_add_left_eq)
  also have "k + Suc 0 + (?n - 1) = k + ?n" using pos by simp
  also have "(k + ?n) mod ?n = k" using 0 by simp
  finally have "(i + (?n - 1)) mod ?n = k" .
  with 0 i show ?case by (simp add: prev_loop_step)
next
  case (Suc d)
  let ?n = "length chain"
  let ?j = "(i + (?n - 1)) mod ?n"
  from Suc.prems have pos: "0 < ?n" by auto
  then have i: "i < ?n" and j: "?j < ?n" using Suc.prems by simp_all
  have "?j = (k + Suc (Suc d) + (?n - 1)) mod ?n"
    unfolding Suc.prems(2) by (rule mod_add_left_eq)
  also have "k + Suc (Suc d) + (?n - 1) = k + Suc d + ?n" using pos by simp
  also have "(k + Suc d + ?n) mod ?n = (k + Suc d) mod ?n" by (rule mod_add_self2)
  finally have "?j = (k + Suc d) mod ?n" .
  from Suc.IH [OF Suc.prems(1) this Suc.prems(3)] i j show ?case
    by (auto simp: prev_loop_step [of i])
qed

lemma next_loop_diverges_aux:
  "window_focus_next_loop E chain current = Some r \<Longrightarrow>
   \<not> ((\<forall>w \<in> set chain. \<not> sng_widget_is_visible E w) \<and> (\<exists>i < length chain. current = Some i))"
proof (induction rule: window_focus_next_loop.raw_induct [rotated 1, consumes 1])
  case (1 loop E chain current r)
  show ?case
  proof
    assume bad: "(\<forall>w \<in> set chain. \<not> sng_widget_is_visible E w) \<and> (\<exists>i < length chain. current = Some i)"
    then obtain i where i: "i < length chain" "current = Some i" by auto
    let ?j = "Suc i mod length chain"
    from i have "0 < length chain" by auto
    then have j: "?j < length chain" by simp
    from bad j have inv: "\<not> sng_widget_is_visible E (chain ! ?j)" by simp
    have "loop E chain (Some ?j) = Some r"
    proof (cases "Suc i < length chain")
      case True
      with 1(2) i inv show ?thesis by (simp add: node_next_def node_data_def)
    next
      case False
      with i have "Suc i = length chain" by simp
      then have z: "?j = 0" "chain \<noteq> []" by auto
      with 1(2) i inv False show ?thesis
        by (simp add: node_next_def node_data_def g_list_first_def)
    qed
    from 1(1) [OF this] bad j show False by auto
  qed
qed

lemma next_loop_diverges:
  "\<forall>w \<in> set chain. \<not> sng_widget_is_visible E w \<Longrightarrow> i < length chain \<Longrightarrow>
   window_focus_next_loop E chain (Some i) = None"
  using next_loop_diverges_aux [of E chain "Some i"]
  by (cases "window_focus_next_loop E chain (Some i)") auto


lemma prev_loop_diverges_aux:
  "window_focus_prev_loop E chain current = Some r \<Longrightarrow>
   \<not> ((\<forall>w \<in> set chain. \<not> sng_widget_is_visible E w) \<and> (\<exists>i < length chain. current = Some i))"
proof (induction rule: window_focus_prev_loop.raw_induct [rotated 1, consumes 1])
  case (1 loop E chain current r)
  show ?case
  proof
    assume bad: "(\<forall>w \<in> set chain. \<not> sng_widget_is_visible E w) \<and> (\<exists>i < length chain. current = Some i)"
    then obtain i where i: "i < length chain" "current = Some i" by auto
    let ?j = "if i = 0 then length chain - 1 else i - 1"
    from i have ne: "chain \<noteq> []" by auto
    from i have j: "?j < length chain" by auto
    from bad j have inv: "\<not> sng_widget_is_visible E (chain ! ?j)" by simp
    have "loop E chain (Some ?j) = Some r"
      using 1(2) i inv ne
      by (cases "i = 0") (simp_all add: node_prev_def node_data_def g_list_last_def)
    from 1(1) [OF this] bad j show False by auto
  qed
qed

lemma prev_loop_diverges:
  "\<forall>w \<in> set chain. \<not> sng_widget_is_visible E w \<Longrightarrow> i < length chain \<Longrightarrow>
   window_focus_prev_loop E chain (Some i) = None"
  using prev_loop_diverges_aux [of E chain "Some i"]
  by (cases "window_focus_prev_loop E chain (Some i)") auto

lemma window_focus_next_not_member:
  "focus s \<notin> set (focus_chain s) \<Longrightarrow> window_focus_next E s = Some (Inl NullDereference)"
  by (simp add: window_focus_next_def g_list_find_None [THEN iffD2] next_loop_NULL)

lemma window_focus_prev_not_member:
  "focus s \<notin> set (focus_chain s) \<Longrightarrow> window_focus_prev E s = Some (Inl NullDereference)"
  by (simp add: window_focus_prev_def g_list_find_None [THEN iffD2] prev_loop_NULL)

lemma window_focus_next_all_invisible:
  assumes "focus s \<in> set (focus_chain s)"
    and "\<forall>w \<in> set (focus_chain s). \<not> sng_widget_is_visible E w"
  shows "window_focus_next E s = None"
proof -
  from assms(1) obtain i where "i < length (focus_chain s)"
    "g_list_find (focus_chain s) (focus s) = Some i"
    using g_list_find_member by blast
  with assms(2) show ?thesis
    by (simp add: window_focus_next_def next_loop_diverges)
qed

lemma window_focus_prev_all_invisible:
  assumes "focus s \<in> set (focus_chain s)"
    and "\<forall>w \<in> set (focus_chain s). \<not> sng_widget_is_visible E w"
  shows "window_focus_prev E s = None"
proof -
  from assms(1) obtain i where "i < length (focus_chain s)"
    "g_list_find (focus_chain s) (focus s) = Some i"
    using g_list_find_member by blast
  with assms(2) show ?thesis
    by (simp add: window_focus_prev_def prev_loop_diverges)
qed

lemma window_focus_next_finds:
  assumes "focus s \<in> set (focus_chain s)"
    and "\<exists>w \<in> set (focus_chain s). sng_widget_is_visible E w"
  shows "\<exists>m < length (focus_chain s).
           window_focus_next E s =
             Some (Inr (window_set_focused_widget (focus_chain s ! m) s)) \<and>
           sng_widget_is_visible E (focus_chain s ! m)"
proof -
  let ?chain = "focus_chain s"
  let ?n = "length ?chain"
  from assms(1) obtain i where i: "i < ?n" "g_list_find ?chain (focus s) = Some i"
    using g_list_find_member by blast
  from assms(2) obtain k where k: "k < ?n" "sng_widget_is_visible E (?chain ! k)"
    by (auto simp: in_set_conv_nth)
  define d where "d = k + ?n - i - 1"
  from i k have "i + Suc d = k + ?n" by (simp add: d_def)
  then have "(i + Suc d) mod ?n = k" using k by simp
  with k have "sng_widget_is_visible E (?chain ! ((i + Suc d) mod ?n))" by simp
  from next_loop_finds [OF i(1) this] obtain m where
    "m < ?n" "window_focus_next_loop E ?chain (Some i) = Some (Inr m)"
    "sng_widget_is_visible E (?chain ! m)" by blast
  with i show ?thesis
    by (auto simp: window_focus_next_def node_data_def)
qed

lemma window_focus_prev_finds:
  assumes "focus s \<in> set (focus_chain s)"
    and "\<exists>w \<in> set (focus_chain s). sng_widget_is_visible E w"
  shows "\<exists>m < length (focus_chain s).
           window_focus_prev E s =
             Some (Inr (window_set_focused_widget (focus_chain s ! m) s)) \<and>
           sng_widget_is_visible E (focus_chain s ! m)"
proof -
  let ?chain = "focus_chain s"
  let ?n = "length ?chain"
  from assms(1) obtain i where i: "i < ?n" "g_list_find ?chain (focus s) = Some i"
    using g_list_find_member by blast
  from assms(2) obtain k where k: "k < ?n" "sng_widget_is_visible E (?chain ! k)"
    by (auto simp: in_set_conv_nth)
  define d where "d = i + ?n - k - 1"
  from i k have "k + Suc d = i + ?n" by (simp add: d_def)
  then have "i = (k + Suc d) mod ?n" using i by simp
  from prev_loop_finds [OF k(1) this k(2)] obtain m where
    "m < ?n" "window_focus_prev_loop E ?chain (Some i) = Some (Inr m)"
    "sng_widget_is_visible E (?chain ! m)" by blast
  with i show ?thesis
    by (auto simp: window_focus_prev_def node_data_def)
qed

lemma window_focus_next_abc:
  assumes "focus_chain s = [a, b, c]" "focus s = a"
    and "sng_widget_is_visible E a" "\<not> sng_widget_is_visible E b" "sng_widget_is_visible E c"
  shows "\<exists>s1 s2. window_focus_next E s = Some (Inr s1) \<and> focus s1 = c \<and>
           window_focus_next E s1 = Some (Inr s2) \<and> focus s2 = a"
proof -
  from assms have bc: "b \<noteq> c" by auto
  let ?s1 = "window_set_focused_widget c s"
  have 1: "window_focus_next E s = Some (Inr ?s1)"
    using assms by (simp add: window_focus_next_def next_loop_step node_data_def)
  have 2: "window_focus_next E ?s1 = Some (Inr (window_set_focused_widget a ?s1))"
    using assms bc by (simp add: window_focus_next_def next_loop_step node_data_def)
  from 1 2 show ?thesis by simp
qed

lemma window_focus_next_all_visible:
  assumes "i < length (focus_chain s)" "focus s = focus_chain s ! i" "distinct (focus_chain s)"
    and "\<forall>w \<in> set (focus_chain s). sng_widget_is_visible E w"
  shows "window_focus_next E s =
     Some (Inr (window_set_focused_widget (focus_chain s ! (Suc i mod length (focus_chain s))) s))"
proof -
  from assms(1) have "0 < length (focus_chain s)" by auto
  then have "Suc i mod length (focus_chain s) < length (focus_chain s)" by simp
  with assms(4) have "sng_widget_is_visible E (focus_chain s ! (Suc i mod length (focus_chain s)))"
    by simp
  with assms show ?thesis
    by (simp add: window_focus_next_def g_list_find_distinct next_loop_step node_data_def)
qed

lemma window_focus_prev_all_visible:
  assumes "i < length (focus_chain s)" "focus s = focus_chain s ! i" "distinct (focus_chain s)"
    and "\<forall>w \<in> set (focus_chain s). sng_widget_is_visible E w"
  shows "window_focus_prev E s =
     Some (Inr (window_set_focused_widget
       (focus_chain s ! ((i + (length (focus_chain s) - 1)) mod length (focus_chain s))) s))"
proof -
  let ?n = "length (focus_chain s)"
  from assms(1) have "0 < ?n" by auto
  then have "(i + (?n - 1)) mod ?n < ?n" by simp
  then have "focus_chain s ! ((i + (?n - 1)) mod ?n) \<in> set (focus_chain s)" by (rule nth_mem)
  with assms(4) have v: "sng_widget_is_visible E (focus_chain s ! ((i + (?n - 1)) mod ?n))"
    by blast
  have "window_focus_prev_loop E (focus_chain s) (Some i) = Some (Inr ((i + (?n - 1)) mod ?n))"
    using v by (subst prev_loop_step [OF assms(1)]) simp
  with assms(1-3) show ?thesis
    by (simp add: window_focus_prev_def g_list_find_distinct node_data_def)
qed

lemma focus_next_times_all_visible:
  "i < length (focus_chain s) \<Longrightarrow> focus s = focus_chain s ! i \<Longrightarrow> distinct (focus_chain s) \<Longrightarrow>
   \<forall>w \<in> set (focus_chain s). sng_widget_is_visible E w \<Longrightarrow>
   \<exists>s'. focus_next_times E k s = Some (Inr s') \<and> focus_chain s' = focus_chain s \<and>
      focus s' = focus_chain s ! ((i + k) mod length (focus_chain s))"
proof (induction k arbitrary: s i)
  case 0
  then show ?case by simp
next
  case (Suc k)
  let ?n = "length (focus_chain s)"
  let ?j = "Suc i mod ?n"
  let ?s1 = "window_set_focused_widget (focus_chain s ! ?j) s"
  from Suc.prems(1) have "0 < ?n" by auto
  then have j: "?j < length (focus_chain ?s1)" by simp
  have step: "window_focus_next E s = Some (Inr ?s1)"
    using Suc.prems by (rule window_focus_next_all_visible)
  from Suc.IH [of ?j ?s1, OF j] Suc.prems(3,4)
  obtain s' where s': "focus_next_times E k ?s1 = Some (Inr s')" "focus_chain s' = focus_chain s"
    "focus s' = focus_chain s ! ((?j + k) mod ?n)" by auto
  have "(?j + k) mod ?n = (i + Suc k) mod ?n"
    by (metis add_Suc add_Suc_right mod_add_left_eq)
  with s' step show ?case by simp
qed

lemma focus_prev_times_all_visible:
  "i < length (focus_chain s) \<Longrightarrow> focus s = focus_chain s ! i \<Longrightarrow> distinct (focus_chain s) \<Longrightarrow>
   \<forall>w \<in> set (focus_chain s). sng_widget_is_visible E w \<Longrightarrow>
   \<exists>s'. focus_prev_times E k s = Some (Inr s') \<and> focus_chain s' = focus_chain s \<and>
      focus s' = focus_chain s ! ((i + k * (length (focus_chain s) - 1)) mod length (focus_chain s))"
proof (induction k arbitrary: s i)
  case 0
  then show ?case by simp
next
  case (Suc k)
  let ?n = "length (focus_chain s)"
  let ?j = "(i + (?n - 1)) mod ?n"
  let ?s1 = "window_set_focused_widget (focus_chain s ! ?j) s"
  from Suc.prems(1) have "0 < ?n" by auto
  then have j: "?j < length (focus_chain ?s1)" by simp
  have step: "window_focus_prev E s = Some (Inr ?s1)"
    using Suc.prems by (rule window_focus_prev_all_visible)
  from Suc.IH [of ?j ?s1, OF j] Suc.prems(3,4)
  obtain s' where s': "focus_prev_times E k ?s1 = Some (Inr s')" "focus_chain s' = focus_chain s"
    "focus s' = focus_chain s ! ((?j + k * (?n - 1)) mod ?n)" by auto
  have "(?j + k * (?n - 1)) mod ?n = (i + (?n - 1) + k * (?n - 1)) mod ?n"
    by (rule mod_add_left_eq)
  also have "i + (?n - 1) + k * (?n - 1) = i + Suc k * (?n - 1)" by simp
  finally have "(?j + k * (?n - 1)) mod ?n = (i + Suc k * (?n - 1)) mod ?n" .
  with s' step show ?case by simp
qed

lemma same_but_focus_set_focused_widget:
  "same_but_focus s (window_set_focused_widget w s)"
  by (simp add: same_but_focus_def window_set_focused_widget_def emit_def Let_def)

subsection \<open>Focus transfer protocol\<close>

text \<open>
  C2: \<open>window_set_focused_widget\<close> with the widget that has the focus changes nothing and
  notifies nobody. With any other widget it notifies the widget that had the focus that
  it lost it, while the window still reports that widget as focused; then stores the new
  widget; then notifies the new widget that it gained the focus, the window reporting the
  new widget. The log grows by exactly these two calls, in this order, and no other field
  changes.
\<close>

theorem set_focused_widget_protocol:
  "(focus s = w \<longrightarrow> window_set_focused_widget w s = s) \<and>
   (focus s \<noteq> w \<longrightarrow>
      window_set_focused_widget w s =
        s\<lparr>focus := w,
          calls := calls s @ [(FocusLost (focus s), focus s), (FocusGain w, w)]\<rparr>)"
  by (simp add: window_set_focused_widget_def emit_def Let_def)

theorem set_focused_widget_protocol_witness:
  "focus (sample_window [1, 2] 1) = 1 \<and>
   window_set_focused_widget 1 (sample_window [1, 2] 1) = sample_window [1, 2] 1 \<and>
   focus (sample_window [1, 2] 1) \<noteq> 2 \<and>
   window_set_focused_widget 2 (sample_window [1, 2] 1) =
     (sample_window [1, 2] 1)\<lparr>focus := 2, calls := [(FocusLost 1, 1), (FocusGain 2, 2)]\<rparr>"
  using set_focused_widget_protocol [of "sample_window [1, 2] 1" 1]
    set_focused_widget_protocol [of "sample_window [1, 2] 1" 2]
  by simp

subsection \<open>Navigation without a target\<close>

text \<open>
  C1: \<open>window_focus_next\<close> and \<open>window_focus_prev\<close> are not safe on every window.
  With an empty chain, and with a focused widget that is not in the chain (the window
  itself, as \<open>window_init\<close> leaves it), \<open>g_list_find\<close> answers \<open>NULL\<close> and the loop
  reads \<open>current->next\<close> (\<open>current->prev\<close>) through it. With the focused widget in a
  chain whose members are all invisible, the loop never ends.
\<close>

theorem focus_navigation_faults:
  "window_focus_next (sample_env (\<lambda>w. True) (\<lambda>w. True) (\<lambda>k. ACTION_UNKNOWN) (\<lambda>x y. None))
     (sample_window [] 0) = Some (Inl NullDereference) \<and>
   window_focus_prev (sample_env (\<lambda>w. True) (\<lambda>w. True) (\<lambda>k. ACTION_UNKNOWN) (\<lambda>x y. None))
     (sample_window [] 0) = Some (Inl NullDereference) \<and>
   window_focus_next (sample_env (\<lambda>w. True) (\<lambda>w. True) (\<lambda>k. ACTION_UNKNOWN) (\<lambda>x y. None))
     (sample_window [1, 2] 0) = Some (Inl NullDereference) \<and>
   window_focus_prev (sample_env (\<lambda>w. True) (\<lambda>w. True) (\<lambda>k. ACTION_UNKNOWN) (\<lambda>x y. None))
     (sample_window [1, 2] 0) = Some (Inl NullDereference) \<and>
   window_focus_next (sample_env (\<lambda>w. False) (\<lambda>w. True) (\<lambda>k. ACTION_UNKNOWN) (\<lambda>x y. None))
     (sample_window [1, 2] 1) = None \<and>
   window_focus_prev (sample_env (\<lambda>w. False) (\<lambda>w. True) (\<lambda>k. ACTION_UNKNOWN) (\<lambda>x y. None))
     (sample_window [1, 2] 1) = None"
proof -
  let ?E = "sample_env (\<lambda>w. False) (\<lambda>w. True) (\<lambda>k. ACTION_UNKNOWN) (\<lambda>x y. None)"
  have "window_focus_next ?E (sample_window [1, 2] 1) = None"
    by (rule window_focus_next_all_invisible) simp_all
  moreover have "window_focus_prev ?E (sample_window [1, 2] 1) = None"
    by (rule window_focus_prev_all_invisible) simp_all
  ultimately show ?thesis
    by (simp add: window_focus_next_not_member window_focus_prev_not_member)
qed

subsection \<open>Navigation skips hidden widgets\<close>

text \<open>
  C4: when the focused widget is in the chain and the chain has a visible widget other
  than the focused one, \<open>window_focus_next\<close> and \<open>window_focus_prev\<close> return, and the
  widget focused afterwards is visible. For the chain [a (visible), b (hidden),
  c (visible)] with the focus on a, \<open>window_focus_next\<close> gives the focus to c, and
  \<open>window_focus_next\<close> once more gives it back to a.
\<close>

theorem focus_navigation_skips_hidden:
  assumes "focus s \<in> set (focus_chain s)"
    and "\<exists>w \<in> set (focus_chain s). w \<noteq> focus s \<and> sng_widget_is_visible E w"
  shows "(\<exists>s'. window_focus_next E s = Some (Inr s') \<and> sng_widget_is_visible E (focus s')) \<and>
         (\<exists>s'. window_focus_prev E s = Some (Inr s') \<and> sng_widget_is_visible E (focus s')) \<and>
         (\<forall>a b c. focus_chain s = [a, b, c] \<and> focus s = a \<and> sng_widget_is_visible E a \<and>
              \<not> sng_widget_is_visible E b \<and> sng_widget_is_visible E c \<longrightarrow>
            (\<exists>s1 s2. window_focus_next E s = Some (Inr s1) \<and> focus s1 = c \<and>
               window_focus_next E s1 = Some (Inr s2) \<and> focus s2 = a))"
proof -
  from assms(2) have vis: "\<exists>w \<in> set (focus_chain s). sng_widget_is_visible E w" by auto
  from window_focus_next_finds [OF assms(1) vis]
  have n: "\<exists>s'. window_focus_next E s = Some (Inr s') \<and> sng_widget_is_visible E (focus s')"
    by auto
  from window_focus_prev_finds [OF assms(1) vis]
  have p: "\<exists>s'. window_focus_prev E s = Some (Inr s') \<and> sng_widget_is_visible E (focus s')"
    by auto
  from n p show ?thesis
    by (blast intro: window_focus_next_abc)
qed

theorem focus_navigation_skips_hidden_witness:
  "focus (sample_window [1, 2, 3] 1) \<in> set (focus_chain (sample_window [1, 2, 3] 1)) \<and>
   (\<exists>w \<in> set (focus_chain (sample_window [1, 2, 3] 1)).
      w \<noteq> focus (sample_window [1, 2, 3] 1) \<and>
      sng_widget_is_visible
        (sample_env (\<lambda>w. w \<noteq> 2) (\<lambda>w. True) (\<lambda>k. ACTION_UNKNOWN) (\<lambda>x y. None)) w) \<and>
   (\<exists>s1 s2.
      window_focus_next (sample_env (\<lambda>w. w \<noteq> 2) (\<lambda>w. True) (\<lambda>k. ACTION_UNKNOWN) (\<lambda>x y. None))
        (sample_window [1, 2, 3] 1) = Some (Inr s1) \<and> focus s1 = 3 \<and>
      window_focus_next (sample_env (\<lambda>w. w \<noteq> 2) (\<lambda>w. True) (\<lambda>k. ACTION_UNKNOWN) (\<lambda>x y. None))
        s1 = Some (Inr s2) \<and> focus s2 = 1)"
proof -
  let ?E = "sample_env (\<lambda>w. w \<noteq> 2) (\<lambda>w. True) (\<lambda>k. ACTION_UNKNOWN) (\<lambda>x y. None)"
  let ?s = "sample_window [1, 2, 3] 1"
  have m: "focus ?s \<in> set (focus_chain ?s)" by simp
  have v: "\<exists>w \<in> set (focus_chain ?s). w \<noteq> focus ?s \<and> sng_widget_is_visible ?E w" by simp
  from focus_navigation_skips_hidden [OF m v] show ?thesis by simp
qed

subsection \<open>Navigation is circular\<close>

text \<open>
  C3, as amended: in a window whose chain is not empty, has no widget twice and has
  only visible members, with the focused widget in the chain, as many calls of
  \<open>window_focus_next\<close> as the chain is long return, and give the focus back to the widget
  that had it; so do as many calls of \<open>window_focus_prev\<close>.
\<close>

theorem focus_navigation_circular:
  assumes "focus_chain s \<noteq> []"
    and "\<forall>w \<in> set (focus_chain s). sng_widget_is_visible E w"
    and "focus s \<in> set (focus_chain s)"
    and "distinct (focus_chain s)"
  shows "(\<exists>s'. focus_next_times E (length (focus_chain s)) s = Some (Inr s') \<and> focus s' = focus s) \<and>
         (\<exists>s'. focus_prev_times E (length (focus_chain s)) s = Some (Inr s') \<and> focus s' = focus s)"
proof -
  let ?n = "length (focus_chain s)"
  from assms(3) obtain i where i: "i < ?n" "focus s = focus_chain s ! i"
    by (auto simp: in_set_conv_nth)
  have a: "(i + ?n) mod ?n = i" using i by simp
  have "(i + ?n * (?n - 1)) mod ?n = i mod ?n" by (rule mod_mult_self2)
  then have b: "(i + ?n * (?n - 1)) mod ?n = i" using i by simp
  from focus_next_times_all_visible [OF i assms(4,2), of ?n] a i
  have n: "\<exists>s'. focus_next_times E ?n s = Some (Inr s') \<and> focus s' = focus s" by auto
  from focus_prev_times_all_visible [OF i assms(4,2), of ?n] b i
  have p: "\<exists>s'. focus_prev_times E ?n s = Some (Inr s') \<and> focus s' = focus s" by auto
  from n p show ?thesis ..
qed

theorem focus_navigation_circular_witness:
  "focus_chain (sample_window [1, 2, 3] 2) \<noteq> [] \<and>
   list_all
     (sng_widget_is_visible
        (sample_env (\<lambda>w. True) (\<lambda>w. True) (\<lambda>k. ACTION_UNKNOWN) (\<lambda>x y. None)))
     (focus_chain (sample_window [1, 2, 3] 2)) \<and>
   focus (sample_window [1, 2, 3] 2) \<in> set (focus_chain (sample_window [1, 2, 3] 2)) \<and>
   distinct (focus_chain (sample_window [1, 2, 3] 2)) \<and>
   (\<exists>s'. focus_next_times (sample_env (\<lambda>w. True) (\<lambda>w. True) (\<lambda>k. ACTION_UNKNOWN) (\<lambda>x y. None))
        (length (focus_chain (sample_window [1, 2, 3] 2))) (sample_window [1, 2, 3] 2) =
          Some (Inr s') \<and>
        focus s' = focus (sample_window [1, 2, 3] 2)) \<and>
   (\<exists>s'. focus_prev_times (sample_env (\<lambda>w. True) (\<lambda>w. True) (\<lambda>k. ACTION_UNKNOWN) (\<lambda>x y. None))
        (length (focus_chain (sample_window [1, 2, 3] 2))) (sample_window [1, 2, 3] 2) =
          Some (Inr s') \<and>
        focus s' = focus (sample_window [1, 2, 3] 2))"
proof -
  let ?E = "sample_env (\<lambda>w. True) (\<lambda>w. True) (\<lambda>k. ACTION_UNKNOWN) (\<lambda>x y. None)"
  let ?s = "sample_window [1, 2, 3] 2"
  have a: "focus_chain ?s \<noteq> []" by simp
  have b: "\<forall>w \<in> set (focus_chain ?s). sng_widget_is_visible ?E w" by simp
  have c: "focus ?s \<in> set (focus_chain ?s)" by simp
  have d: "distinct (focus_chain ?s)" by simp
  have b': "list_all (sng_widget_is_visible ?E) (focus_chain ?s)" by simp
  from a b' c d focus_navigation_circular [OF a b c d] show ?thesis by blast
qed

text \<open>
  Without the condition on duplicates the claim fails: in the chain [1, 2, 1], all
  visible, with the focus on 1, three calls of \<open>window_focus_next\<close> leave the focus on 2,
  since \<open>g_list_find\<close> stops at the first node that holds the focused widget.
\<close>

theorem focus_navigation_circular_counterexample:
  "focus_chain (sample_window [1, 2, 1] 1) \<noteq> [] \<and>
   list_all (sng_widget_is_visible (sample_env (\<lambda>w. True) (\<lambda>w. True) (\<lambda>k. ACTION_UNKNOWN) (\<lambda>x y. None)))
     (focus_chain (sample_window [1, 2, 1] 1)) \<and>
   focus (sample_window [1, 2, 1] 1) \<in> set (focus_chain (sample_window [1, 2, 1] 1)) \<and>
   map_option (map_sum id focus)
     (focus_next_times (sample_env (\<lambda>w. True) (\<lambda>w. True) (\<lambda>k. ACTION_UNKNOWN) (\<lambda>x y. None))
        (length (focus_chain (sample_window [1, 2, 1] 1))) (sample_window [1, 2, 1] 1)) =
     Some (Inr 2) \<and>
   focus (sample_window [1, 2, 1] 1) \<noteq> 2"
  by (simp add: numeral_3_eq_3 window_focus_next_def window_focus_next_loop.simps node_next_def
      g_list_first_def window_set_focused_widget_def emit_def node_data_def)

subsection \<open>What the focus operations leave alone\<close>

text \<open>
  C10: \<open>window_set_focused_widget\<close>, \<open>window_focus_next\<close> and \<open>window_focus_prev\<close> write
  no field of the window's state other than the focused widget: the panel, the type, the
  \<open>changed\<close> flag, the chain and the default focus widget are what they were. In
  particular a navigation called directly does not mark the window as changed.
\<close>

theorem focus_operations_frame:
  "same_but_focus s (window_set_focused_widget w s) \<and>
   (\<forall>s'. window_focus_next E s = Some (Inr s') \<longrightarrow> same_but_focus s s') \<and>
   (\<forall>s'. window_focus_prev E s = Some (Inr s') \<longrightarrow> same_but_focus s s')"
  by (auto simp: window_focus_next_def window_focus_prev_def same_but_focus_set_focused_widget
      split: option.splits sum.splits)

theorem focus_operations_frame_witness:
  "window_focus_next (sample_env (\<lambda>w. True) (\<lambda>w. True) (\<lambda>k. ACTION_UNKNOWN) (\<lambda>x y. None))
     (sample_window [1, 2] 1) =
     Some (Inr ((sample_window [1, 2] 1)
       \<lparr>focus := 2, calls := [(FocusLost 1, 1), (FocusGain 2, 2)]\<rparr>)) \<and>
   same_but_focus (sample_window [1, 2] 1)
     ((sample_window [1, 2] 1)\<lparr>focus := 2, calls := [(FocusLost 1, 1), (FocusGain 2, 2)]\<rparr>)"
proof -
  let ?E = "sample_env (\<lambda>w. True) (\<lambda>w. True) (\<lambda>k. ACTION_UNKNOWN) (\<lambda>x y. None)"
  let ?s = "sample_window [1, 2] 1"
  let ?s' = "?s\<lparr>focus := 2, calls := [(FocusLost 1, 1), (FocusGain 2, 2)]\<rparr>"
  have run: "window_focus_next ?E ?s = Some (Inr ?s')"
    by (simp add: window_focus_next_def next_loop_step window_set_focused_widget_def
        emit_def node_data_def)
  from run focus_operations_frame [of ?s 2 ?E] show ?thesis by blast
qed

subsection \<open>The log of calls\<close>

lemma focus_chain_emit [simp]: "focus_chain (emit c s) = focus_chain s"
  by (simp add: emit_def)

lemma focus_emit [simp]: "focus (emit c s) = focus s"
  by (simp add: emit_def)

lemma changed_emit [simp]: "changed (emit c s) = changed s"
  by (simp add: emit_def)

lemma calls_emit [simp]: "calls (emit c s) = calls s @ [(c, focus s)]"
  by (simp add: emit_def)

lemma changed_window_set_focused_widget [simp]:
  "changed (window_set_focused_widget w s) = changed s"
  by (simp add: window_set_focused_widget_def emit_def Let_def)

subsection \<open>Attaching a subtree\<close>

lemma fold_focus_chain:
  "(\<And>c s. c \<in> set cs \<Longrightarrow> focus_chain (f c s) = focus_chain s @ g c) \<Longrightarrow>
   focus_chain (fold f cs s) = focus_chain s @ concat (map g cs)"
  by (induction cs arbitrary: s) simp_all

lemma window_update_focus_chain_preorder:
  "focus_chain (window_update_focus_chain E t s) =
     focus_chain s @ filter (sng_widget_can_focus E) (preorder t)"
proof (induction t arbitrary: s)
  case (Plain w)
  show ?case
    by (subst window_update_focus_chain.simps) (simp add: g_list_append_def Let_def)
next
  case (Container w children)
  have "\<And>c s. c \<in> set children \<Longrightarrow>
      focus_chain (window_update_focus_chain E c s) =
        focus_chain s @ filter (sng_widget_can_focus E) (preorder c)"
    by (rule Container.IH)
  then have "\<And>s. focus_chain (fold (window_update_focus_chain E) children s) =
      focus_chain s @ concat (map (\<lambda>c. filter (sng_widget_can_focus E) (preorder c)) children)"
    by (rule fold_focus_chain)
  then show ?case
    by (subst window_update_focus_chain.simps)
      (simp add: g_list_append_def Let_def filter_concat comp_def)
qed

text \<open>
  C5: attaching a widget subtree appends to the focus chain exactly the nodes of the
  subtree that can take the focus, in pre-order (the widget first, then each child's
  subtree), after the entries that were there. A subtree with 3 focusable and 2
  non-focusable nodes makes the chain 3 entries longer.
\<close>

theorem add_widget_appends_preorder:
  "focus_chain (window_add_widget E t s) =
     focus_chain s @ filter (sng_widget_can_focus E) (preorder t) \<and>
   (length (filter (sng_widget_can_focus E) (preorder t)) = 3 \<and>
    length (filter (\<lambda>w. \<not> sng_widget_can_focus E w) (preorder t)) = 2 \<longrightarrow>
    length (focus_chain (window_add_widget E t s)) = length (focus_chain s) + 3)"
  by (simp add: window_add_widget_def window_update_focus_chain_preorder)

theorem add_widget_appends_preorder_witness:
  "length (filter (\<lambda>w. w < 10) (preorder (Container 10 [Plain 1, Container 11 [Plain 2, Plain 3]]))) = 3 \<and>
   length (filter (\<lambda>w. \<not> w < 10) (preorder (Container 10 [Plain 1, Container 11 [Plain 2, Plain 3]]))) = 2 \<and>
   focus_chain (window_add_widget
       (sample_env (\<lambda>w. True) (\<lambda>w. w < 10) (\<lambda>k. ACTION_UNKNOWN) (\<lambda>x y. None))
       (Container 10 [Plain 1, Container 11 [Plain 2, Plain 3]]) (sample_window [7] 7)) =
     [7, 1, 2, 3] \<and>
   length (focus_chain (window_add_widget
       (sample_env (\<lambda>w. True) (\<lambda>w. w < 10) (\<lambda>k. ACTION_UNKNOWN) (\<lambda>x y. None))
       (Container 10 [Plain 1, Container 11 [Plain 2, Plain 3]]) (sample_window [7] 7))) = 4"
  using add_widget_appends_preorder
    [of "sample_env (\<lambda>w. True) (\<lambda>w. w < 10) (\<lambda>k. ACTION_UNKNOWN) (\<lambda>x y. None)"
        "Container 10 [Plain 1, Container 11 [Plain 2, Plain 3]]" "sample_window [7] 7"]
  by simp

subsection \<open>Mouse events\<close>

text \<open>
  C7: \<open>window_handle_mouse\<close> marks the window as changed. When no widget is at the
  event's position it answers \<open>KEY_HANDLED\<close> and changes nothing else, the focus
  included. When a widget is hit, that widget gets the focus through
  \<open>window_set_focused_widget\<close>, then the click is passed to it (the window then
  reports it as focused), and its verdict is the answer.
\<close>

theorem handle_mouse_dispatch:
  "changed (fst (window_handle_mouse E m s)) \<and>
   (container_find_by_position E (mevent_x m) (mevent_y m) = None \<longrightarrow>
      window_handle_mouse E m s = (s\<lparr>changed := True\<rparr>, KEY_HANDLED)) \<and>
   (\<forall>w. container_find_by_position E (mevent_x m) (mevent_y m) = Some w \<longrightarrow>
      window_handle_mouse E m s =
        (emit (Clicked w m) (window_set_focused_widget w (s\<lparr>changed := True\<rparr>)),
         sng_widget_clicked E w m) \<and>
      focus (fst (window_handle_mouse E m s)) = w \<and>
      calls (fst (window_handle_mouse E m s)) =
        calls s @
        (if focus s = w then [] else [(FocusLost (focus s), focus s), (FocusGain w, w)]) @
        [(Clicked w m, w)])"
  by (auto simp: window_handle_mouse_def window_set_focused_widget_def Let_def emit_def
      split: option.splits)

theorem handle_mouse_dispatch_witness:
  "container_find_by_position
     (sample_env (\<lambda>w. True) (\<lambda>w. True) (\<lambda>k. ACTION_UNKNOWN) (\<lambda>x y. None)) 5 3 = None \<and>
   window_handle_mouse
     (sample_env (\<lambda>w. True) (\<lambda>w. True) (\<lambda>k. ACTION_UNKNOWN) (\<lambda>x y. None))
     \<lparr>mevent_id = 0, mevent_x = 5, mevent_y = 3, mevent_z = 0, mevent_bstate = 1\<rparr>
     (sample_window [1, 2] 1) =
     ((sample_window [1, 2] 1)\<lparr>changed := True\<rparr>, KEY_HANDLED) \<and>
   container_find_by_position
     (sample_env (\<lambda>w. True) (\<lambda>w. True) (\<lambda>k. ACTION_UNKNOWN)
        (\<lambda>x y. if x = 5 \<and> y = 3 then Some 2 else None)) 5 3 = Some 2 \<and>
   focus (fst (window_handle_mouse
     (sample_env (\<lambda>w. True) (\<lambda>w. True) (\<lambda>k. ACTION_UNKNOWN)
        (\<lambda>x y. if x = 5 \<and> y = 3 then Some 2 else None))
     \<lparr>mevent_id = 0, mevent_x = 5, mevent_y = 3, mevent_z = 0, mevent_bstate = 1\<rparr>
     (sample_window [1, 2] 1))) = 2 \<and>
   snd (window_handle_mouse
     (sample_env (\<lambda>w. True) (\<lambda>w. True) (\<lambda>k. ACTION_UNKNOWN)
        (\<lambda>x y. if x = 5 \<and> y = 3 then Some 2 else None))
     \<lparr>mevent_id = 0, mevent_x = 5, mevent_y = 3, mevent_z = 0, mevent_bstate = 1\<rparr>
     (sample_window [1, 2] 1)) = KEY_PROPAGATED \<and>
   calls (fst (window_handle_mouse
     (sample_env (\<lambda>w. True) (\<lambda>w. True) (\<lambda>k. ACTION_UNKNOWN)
        (\<lambda>x y. if x = 5 \<and> y = 3 then Some 2 else None))
     \<lparr>mevent_id = 0, mevent_x = 5, mevent_y = 3, mevent_z = 0, mevent_bstate = 1\<rparr>
     (sample_window [1, 2] 1))) =
     [(FocusLost 1, 1), (FocusGain 2, 2),
      (Clicked 2 \<lparr>mevent_id = 0, mevent_x = 5, mevent_y = 3, mevent_z = 0, mevent_bstate = 1\<rparr>, 2)]"
  using handle_mouse_dispatch
    [of "sample_env (\<lambda>w. True) (\<lambda>w. True) (\<lambda>k. ACTION_UNKNOWN) (\<lambda>x y. None)"
        "\<lparr>mevent_id = 0, mevent_x = 5, mevent_y = 3, mevent_z = 0, mevent_bstate = 1\<rparr>"
        "sample_window [1, 2] 1"]
    handle_mouse_dispatch
    [of "sample_env (\<lambda>w. True) (\<lambda>w. True) (\<lambda>k. ACTION_UNKNOWN)
           (\<lambda>x y. if x = 5 \<and> y = 3 then Some 2 else None)"
        "\<lparr>mevent_id = 0, mevent_x = 5, mevent_y = 3, mevent_z = 0, mevent_bstate = 1\<rparr>"
        "sample_window [1, 2] 1"]
  by (simp add: window_set_focused_widget_def emit_def)

subsection \<open>Keys\<close>

text \<open>
  A key whose action is neither of the two field actions goes to the focused widget, and
  the widget's verdict is the answer. A key whose action is a field action runs the
  navigation on the window marked as changed; when the navigation returns, the answer is
  \<open>KEY_HANDLED\<close> and no key handler has been called.
\<close>

lemma window_handle_key_forwards:
  assumes "key_find_action E key ACTION_UNKNOWN \<noteq> ACTION_NEXT_FIELD"
    and "key_find_action E key ACTION_UNKNOWN \<noteq> ACTION_PREV_FIELD"
  shows "window_handle_key E key s =
     Some (Inr (s\<lparr>changed := True, calls := calls s @ [(KeyPressed (focus s) key, focus s)]\<rparr>,
                sng_widget_key_pressed E (focus s) key))"
  using assms by (simp add: window_handle_key_def Let_def emit_def)

lemma window_handle_key_next_field:
  assumes "key_find_action E key ACTION_UNKNOWN = ACTION_NEXT_FIELD"
    and "window_focus_next E (s\<lparr>changed := True\<rparr>) = Some (Inr s')"
  shows "window_handle_key E key s = Some (Inr (s', KEY_HANDLED)) \<and> changed s' \<and>
         (\<forall>w k f. (KeyPressed w k, f) \<in> set (calls s') \<longrightarrow> (KeyPressed w k, f) \<in> set (calls s))"
proof -
  from assms(2) obtain w where s': "s' = window_set_focused_widget w (s\<lparr>changed := True\<rparr>)"
    by (auto simp: window_focus_next_def split: option.splits sum.splits)
  from assms have "window_handle_key E key s = Some (Inr (s', KEY_HANDLED))"
    by (simp add: window_handle_key_def Let_def)
  moreover from s' have "changed s'" by simp
  moreover from s' have "\<forall>w k f. (KeyPressed w k, f) \<in> set (calls s') \<longrightarrow>
      (KeyPressed w k, f) \<in> set (calls s)"
    by (auto simp: window_set_focused_widget_def Let_def split: if_splits)
  ultimately show ?thesis by blast
qed

lemma window_handle_key_prev_field:
  assumes "key_find_action E key ACTION_UNKNOWN = ACTION_PREV_FIELD"
    and "window_focus_prev E (s\<lparr>changed := True\<rparr>) = Some (Inr s')"
  shows "window_handle_key E key s = Some (Inr (s', KEY_HANDLED)) \<and> changed s' \<and>
         (\<forall>w k f. (KeyPressed w k, f) \<in> set (calls s') \<longrightarrow> (KeyPressed w k, f) \<in> set (calls s))"
proof -
  from assms(2) obtain w where s': "s' = window_set_focused_widget w (s\<lparr>changed := True\<rparr>)"
    by (auto simp: window_focus_prev_def split: option.splits sum.splits)
  from assms have "window_handle_key E key s = Some (Inr (s', KEY_HANDLED))"
    by (simp add: window_handle_key_def Let_def)
  moreover from s' have "changed s'" by simp
  moreover from s' have "\<forall>w k f. (KeyPressed w k, f) \<in> set (calls s') \<longrightarrow>
      (KeyPressed w k, f) \<in> set (calls s)"
    by (auto simp: window_set_focused_widget_def Let_def split: if_splits)
  ultimately show ?thesis by blast
qed

text \<open>
  C6: \<open>window_handle_key\<close> does not answer \<open>KEY_HANDLED\<close> for every window and every
  key bound to a field action. In a window with an empty chain, focused on itself, the
  navigation it calls reads through \<open>NULL\<close> (see C1), and no verdict is returned.
\<close>

theorem handle_key_field_action_faults:
  "window_handle_key
     (sample_env (\<lambda>w. True) (\<lambda>w. True)
        (\<lambda>k. if k = 9 then ACTION_NEXT_FIELD else if k = 353 then ACTION_PREV_FIELD
              else ACTION_UNKNOWN)
        (\<lambda>x y. None))
     9 (sample_window [] 0) = Some (Inl NullDereference) \<and>
   window_handle_key
     (sample_env (\<lambda>w. True) (\<lambda>w. True)
        (\<lambda>k. if k = 9 then ACTION_NEXT_FIELD else if k = 353 then ACTION_PREV_FIELD
              else ACTION_UNKNOWN)
        (\<lambda>x y. None))
     353 (sample_window [] 0) = Some (Inl NullDereference)"
  by (simp add: window_handle_key_def window_focus_next_not_member window_focus_prev_not_member)

subsection \<open>Placement on realization\<close>

lemma gint_range_wrap: "gint_range (gint_wrap k)"
proof -
  have "0 \<le> (k + 2 ^ 31) mod (2 ^ 32 :: int)" "(k + 2 ^ 31) mod (2 ^ 32 :: int) < 2 ^ 32"
    by simp_all
  then show ?thesis by (simp add: gint_range_def gint_wrap_def)
qed

lemma gint_wrap_id: "gint_range k \<Longrightarrow> gint_wrap k = k"
  by (simp add: gint_range_def gint_wrap_def)

lemma sdiv_2_abs: "\<bar>k sdiv 2\<bar> = \<bar>k\<bar> div 2" for k :: int
  by (simp add: signed_divide_int_def sgn_if)

lemma sdiv_2_cases: "k sdiv 2 = (if k < 0 then - (\<bar>k\<bar> div 2) else k div 2)" for k :: int
  by (simp add: signed_divide_int_def sgn_if)

lemma sdiv_2_range: "gint_range k \<Longrightarrow> - (2 ^ 30) \<le> k sdiv 2 \<and> k sdiv 2 < 2 ^ 30" for k :: int
  unfolding sdiv_2_cases gint_range_def by (cases "k < 0") (simp_all, linarith+)

lemma ABS_gint_div_2:
  assumes "gint_range k"
  shows "ABS (gint_div k 2) = \<bar>k sdiv 2\<bar>"
proof -
  from sdiv_2_range [OF assms] have b: "- (2 ^ 30) \<le> k sdiv 2" "k sdiv 2 < 2 ^ 30" by simp_all
  then have "gint_range (k sdiv 2)" by (simp add: gint_range_def)
  then have d: "gint_div k 2 = k sdiv 2" by (simp add: gint_div_def gint_wrap_id)
  from b have "gint_range (- (k sdiv 2))" by (simp add: gint_range_def)
  then have "gint_wrap (- (k sdiv 2)) = - (k sdiv 2)" by (rule gint_wrap_id)
  with d show ?thesis by (simp add: ABS_def)
qed

lemma realize_offset:
  "(if window_dim \<noteq> screen_dim then ABS (gint_div (gint_sub screen_dim window_dim) 2) else 0) =
     centering_offset screen_dim window_dim"
  by (simp add: centering_offset_def gint_sub_def ABS_gint_div_2 gint_range_wrap)

lemma centering_offset_nonneg: "0 \<le> centering_offset screen_dim window_dim"
  by (simp add: centering_offset_def)

lemma centering_offset_exact:
  "gint_range (screen_dim - window_dim) \<Longrightarrow>
   centering_offset screen_dim window_dim = \<bar>screen_dim - window_dim\<bar> div 2"
  by (simp add: centering_offset_def gint_sub_def gint_wrap_id sdiv_2_abs)

text \<open>
  C8: a window that is not realized yet is placed at the row offset computed from the
  screen's rows and the window's height and at the column offset computed from the
  screen's columns and the window's width; \<open>newwin\<close> gets the first as \<open>begin_y\<close> and
  the second as \<open>begin_x\<close>. Each offset is 0 when the two dimensions are equal, and
  otherwise the absolute value of the truncated quotient of their difference (as \<open>gint\<close>
  subtraction computes it) by 2; it is never negative; and whenever the difference of the
  two dimensions is a \<open>gint\<close>, which it is for all dimensions that are not negative,
  it is \<open>|screen_dim - window_dim| / 2\<close>.
\<close>

theorem realize_centering:
  assumes "\<not> sng_widget_is_realized E"
  shows "map fst (calls (window_realize E s)) =
           map fst (calls s) @
           [SetPosition (centering_offset (getmaxy E) (sng_widget_get_height E))
              (centering_offset (getmaxx E) (sng_widget_get_width E)),
            NewWin (sng_widget_get_height E) (sng_widget_get_width E)
              (centering_offset (getmaxy E) (sng_widget_get_height E))
              (centering_offset (getmaxx E) (sng_widget_get_width E)),
            SetNcursesWindow
              (newwin E (sng_widget_get_height E) (sng_widget_get_width E)
                 (centering_offset (getmaxy E) (sng_widget_get_height E))
                 (centering_offset (getmaxx E) (sng_widget_get_width E))),
            WTimeout 0, Keypad True,
            NewPanel
              (newwin E (sng_widget_get_height E) (sng_widget_get_width E)
                 (centering_offset (getmaxy E) (sng_widget_get_height E))
                 (centering_offset (getmaxx E) (sng_widget_get_width E))),
            ParentRealize] \<and>
         centering_offset d d = 0 \<and>
         (d \<noteq> d' \<longrightarrow> centering_offset d d' = \<bar>gint_sub d d' sdiv 2\<bar>) \<and>
         0 \<le> centering_offset d d' \<and>
         (gint_range (d - d') \<longrightarrow> centering_offset d d' = \<bar>(d - d') sdiv 2\<bar> \<and>
            centering_offset d d' = \<bar>d - d'\<bar> div 2)"
proof -
  have "map fst (calls (window_realize E s)) =
           map fst (calls s) @
           [SetPosition (centering_offset (getmaxy E) (sng_widget_get_height E))
              (centering_offset (getmaxx E) (sng_widget_get_width E)),
            NewWin (sng_widget_get_height E) (sng_widget_get_width E)
              (centering_offset (getmaxy E) (sng_widget_get_height E))
              (centering_offset (getmaxx E) (sng_widget_get_width E)),
            SetNcursesWindow
              (newwin E (sng_widget_get_height E) (sng_widget_get_width E)
                 (centering_offset (getmaxy E) (sng_widget_get_height E))
                 (centering_offset (getmaxx E) (sng_widget_get_width E))),
            WTimeout 0, Keypad True,
            NewPanel
              (newwin E (sng_widget_get_height E) (sng_widget_get_width E)
                 (centering_offset (getmaxy E) (sng_widget_get_height E))
                 (centering_offset (getmaxx E) (sng_widget_get_width E))),
            ParentRealize]"
    using assms
    by (simp add: window_realize_def Let_def realize_offset emit_def)
  moreover have "centering_offset d d = 0" by (simp add: centering_offset_def)
  moreover have "d \<noteq> d' \<longrightarrow> centering_offset d d' = \<bar>gint_sub d d' sdiv 2\<bar>"
    by (simp add: centering_offset_def)
  moreover have "0 \<le> centering_offset d d'" by (rule centering_offset_nonneg)
  moreover have "gint_range (d - d') \<longrightarrow> centering_offset d d' = \<bar>(d - d') sdiv 2\<bar> \<and>
            centering_offset d d' = \<bar>d - d'\<bar> div 2"
    by (simp add: centering_offset_exact sdiv_2_abs)
  ultimately show ?thesis by blast
qed

theorem realize_centering_witness:
  "\<not> sng_widget_is_realized
       (sample_env (\<lambda>w. True) (\<lambda>w. True) (\<lambda>k. ACTION_UNKNOWN) (\<lambda>x y. None)) \<and>
   map fst (calls (window_realize
       (sample_env (\<lambda>w. True) (\<lambda>w. True) (\<lambda>k. ACTION_UNKNOWN) (\<lambda>x y. None))
       (sample_window [] 0))) =
     [SetPosition 2 10, NewWin 20 60 2 10, SetNcursesWindow (Some 1), WTimeout 0, Keypad True,
      NewPanel (Some 1), ParentRealize] \<and>
   gint_range (24 - 30) \<and> centering_offset 24 30 = 3"
proof -
  let ?E = "sample_env (\<lambda>w. True) (\<lambda>w. True) (\<lambda>k. ACTION_UNKNOWN) (\<lambda>x y. None)"
  let ?s = "sample_window [] 0"
  have u: "\<not> sng_widget_is_realized ?E" by simp
  have r: "gint_range (24 - 30)" "gint_range (24 - 20)" "gint_range (80 - 60)"
    by (simp_all add: gint_range_def)
  from realize_centering [OF u, of ?s 24 30] r(1)
  have a: "centering_offset 24 30 = \<bar>24 - 30\<bar> div 2" by blast
  from realize_centering [OF u, of ?s 24 20] r(2)
  have b: "centering_offset 24 20 = \<bar>24 - 20\<bar> div 2" by blast
  from realize_centering [OF u, of ?s 80 60] r(3)
  have c: "centering_offset 80 60 = \<bar>80 - 60\<bar> div 2" by blast
  from realize_centering [OF u, of ?s 0 0]
  have "map fst (calls (window_realize ?E ?s)) =
     map fst (calls ?s) @
           [SetPosition (centering_offset (getmaxy ?E) (sng_widget_get_height ?E))
              (centering_offset (getmaxx ?E) (sng_widget_get_width ?E)),
            NewWin (sng_widget_get_height ?E) (sng_widget_get_width ?E)
              (centering_offset (getmaxy ?E) (sng_widget_get_height ?E))
              (centering_offset (getmaxx ?E) (sng_widget_get_width ?E)),
            SetNcursesWindow
              (newwin ?E (sng_widget_get_height ?E) (sng_widget_get_width ?E)
                 (centering_offset (getmaxy ?E) (sng_widget_get_height ?E))
                 (centering_offset (getmaxx ?E) (sng_widget_get_width ?E))),
            WTimeout 0, Keypad True,
            NewPanel
              (newwin ?E (sng_widget_get_height ?E) (sng_widget_get_width ?E)
                 (centering_offset (getmaxy ?E) (sng_widget_get_height ?E))
                 (centering_offset (getmaxx ?E) (sng_widget_get_width ?E))),
            ParentRealize]"
    by (rule conjunct1)
  then have d: "map fst (calls (window_realize ?E ?s)) =
     [SetPosition 2 10, NewWin 20 60 2 10, SetNcursesWindow (Some 1), WTimeout 0, Keypad True,
      NewPanel (Some 1), ParentRealize]"
    by (simp add: b c)
  from a have a': "centering_offset 24 30 = 3" by simp
  from u d r(1) a' show ?thesis by blast
qed

subsection \<open>The footer legend\<close>

lemma printed_cells_append [simp]:
  "printed_cells (xs @ ys) = printed_cells xs @ printed_cells ys"
  by (induction xs rule: printed_cells.induct) simp_all

lemma flat_pairs_append [simp]: "flat_pairs (ps @ qs) = flat_pairs ps @ flat_pairs qs"
  by (induction ps rule: flat_pairs.induct) simp_all

lemma length_flat_pairs [simp]: "length (flat_pairs ps) = 2 * length ps"
  by (induction ps rule: flat_pairs.induct) simp_all

lemma array_read_label:
  "array_read (flat_pairs (ds @ (label, descr) # ps)) (2 * int (length ds)) = Some label"
  by (simp add: array_read_def nth_append nat_mult_distrib)

lemma array_read_descr:
  "array_read (flat_pairs (ds @ (label, descr) # ps)) (2 * int (length ds) + 1) = Some descr"
  by (simp add: array_read_def nth_append nat_add_distrib nat_mult_distrib)

lemma printf_left_pad: "printf_left (Suc (length str)) str = str @ '' ''"
  by (simp add: printf_left_def)

lemma draw_bindings_loop_layout:
  "\<exists>s'. window_draw_bindings_loop E (flat_pairs (ds @ ps)) (2 * int (length (ds @ ps)))
           (2 * int (length ds)) xpos s = Inr s' \<and>
         printed_cells (calls s') = printed_cells (calls s) @ legend_layout xpos ps"
proof (induction ps arbitrary: ds xpos s)
  case Nil
  show ?case by (subst window_draw_bindings_loop.simps) simp
next
  case (Cons p ps)
  obtain label descr where p: "p = (label, descr)" by (cases p)
  let ?line = "sng_widget_get_height E - 1"
  let ?s1 = "emit (WAttrOn {A_BOLD, COLOR_PAIR CP_WHITE_ON_CYAN}) s"
  let ?s2 = "emit (MvWPrintw ?line xpos (printf_left (length label + 1) label)) ?s1"
  let ?xpos1 = "xpos + int (length label) + 1"
  let ?s3 = "emit (WAttrOff {A_BOLD, COLOR_PAIR CP_WHITE_ON_CYAN}) ?s2"
  let ?s4 = "emit (WAttrOn {COLOR_PAIR CP_BLACK_ON_CYAN}) ?s3"
  let ?s5 = "emit (MvWPrintw ?line ?xpos1 (printf_left (length descr + 1) descr)) ?s4"
  let ?s6 = "emit (WAttrOff {COLOR_PAIR CP_BLACK_ON_CYAN}) ?s5"
  let ?xpos2 = "?xpos1 + int (length descr) + 3"
  let ?kb = "flat_pairs (ds @ p # ps)"
  let ?count = "2 * int (length (ds @ p # ps))"
  have kb: "?kb = flat_pairs ((ds @ [p]) @ ps)" and count: "?count = 2 * int (length ((ds @ [p]) @ ps))"
    by simp_all
  have key: "2 * int (length ds) + 2 = 2 * int (length (ds @ [p]))" by simp
  have step: "window_draw_bindings_loop E ?kb ?count (2 * int (length ds)) xpos s =
      window_draw_bindings_loop E ?kb ?count (2 * int (length ds) + 2) ?xpos2 ?s6"
    by (subst window_draw_bindings_loop.simps)
      (simp add: p array_read_label array_read_descr Let_def del: flat_pairs_append)
  from Cons.IH [of "ds @ [p]" ?xpos2 ?s6] obtain s' where
    s': "window_draw_bindings_loop E ?kb ?count (2 * int (length ds) + 2) ?xpos2 ?s6 = Inr s'"
      "printed_cells (calls s') = printed_cells (calls ?s6) @ legend_layout ?xpos2 ps"
    unfolding kb count key by blast
  have "printed_cells (calls ?s6) @ legend_layout ?xpos2 ps =
      printed_cells (calls s) @ legend_layout xpos (p # ps)"
    by (simp add: p printf_left_pad)
  with step s' show ?case by simp
qed

text \<open>
  C9, as amended: for every sequence of (key-label, description) pairs, passed as the
  flat array with its length as count, \<open>window_draw_bindings\<close> returns, and after the
  cleared footer line it prints the cells from left to right, key label and description
  in turn. Each cell is its string and one column of padding. A description starts where
  the padded key label before it ends; a key label starts two columns after the end of
  the padded description before it.
\<close>

theorem footer_legend_layout:
  "\<exists>s'. window_draw_bindings E (flat_pairs ps) (2 * int (length ps)) s = Inr s' \<and>
         printed_cells (calls s') =
           printed_cells (calls s) @
           (0, replicate (nat \<bar>sng_widget_get_width E\<bar>) CHR '' '') # legend_layout 0 ps"
proof -
  let ?s1 = "if \<not> has_colors E then emit (WAttrOn {A_REVERSE}) s else s"
  let ?s2 = "emit (WAttrOn {COLOR_PAIR CP_DEF_ON_CYAN}) ?s1"
  let ?s3 = "window_clear_line E (sng_widget_get_height E - 1) ?s2"
  from draw_bindings_loop_layout [of E "[]" ps 0 ?s3] obtain s' where
    s': "window_draw_bindings_loop E (flat_pairs ps) (2 * int (length ps)) 0 0 ?s3 = Inr s'"
      "printed_cells (calls s') = printed_cells (calls ?s3) @ legend_layout 0 ps"
    by auto
  have "printed_cells (calls ?s3) =
      printed_cells (calls s) @ [(0, replicate (nat \<bar>sng_widget_get_width E\<bar>) CHR '' '')]"
    by (simp add: window_clear_line_def printf_right_def)
  with s' show ?thesis
    by (simp add: window_draw_bindings_def Let_def)
qed

text \<open>
  The cells are not all contiguous, as the claim has it: in the legend of F1 Help, F2 Quit
  the second key label starts at column 10, two columns after the padded description
  before it ends.
\<close>

theorem footer_legend_layout_counterexample:
  "map_sum id (\<lambda>s'. tl (printed_cells (calls s')))
     (window_draw_bindings
        (sample_env (\<lambda>w. True) (\<lambda>w. True) (\<lambda>k. ACTION_UNKNOWN) (\<lambda>x y. None))
        [''F1'', ''Help'', ''F2'', ''Quit''] 4 (sample_window [] 0)) =
     Inr [(0, ''F1 ''), (3, ''Help ''), (10, ''F2 ''), (13, ''Quit '')] \<and>
   \<not> cells_contiguous [(0, ''F1 ''), (3, ''Help ''), (10, ''F2 ''), (13, ''Quit '')]"
  by (simp add: window_draw_bindings_def window_draw_bindings_loop.simps Let_def
      window_clear_line_def printf_right_def printf_left_def array_read_def)

end
